theory Spec2Isabelle
  imports Complex_Main "HOL-Library.Word"
begin

section \<open>Data model\<close>

text \<open>
  The analyser of the anomalies detector, \<^verbatim>\<open>analyser/analyser.go\<close>, and the duration
  parser of its \<^verbatim>\<open>utils\<close> package.

  A \<^verbatim>\<open>time.Time\<close> is an instant on a line; it is modelled by an integer (nanoseconds
  since some epoch). A \<^verbatim>\<open>float64\<close> is idealised as a real number: rounding, infinities
  and NaN are outside the model. Everything proved about the event-period state
  machine is proved for arbitrary values of the mean and of the two limits, so it does
  not depend on how the statistics were computed.
\<close>

type_synonym instant = int

text \<open>\<^verbatim>\<open>collector.TimeStepData\<close>\<close>

record TimeStepData =
  DateStart :: instant
  Value :: real
  Samples :: int

text \<open>\<^verbatim>\<open>analyser.eventPeriod\<close>\<close>

record eventPeriod =
  outlierPeriodStart :: instant
  outlierPeriodEnd :: instant

text \<open>
  A run-time panic of an out-of-range slice index, and the error value that
  \<^verbatim>\<open>StrToDuration\<close> builds with \<^verbatim>\<open>fmt.Errorf\<close> (it carries the offending string).
\<close>

datatype error = IndexOutOfRange | InvalidDuration string

text \<open>\<^verbatim>\<open>data[i]\<close> on a Go slice: a panic outside \<open>0 \<le> i < len(data)\<close>.\<close>

definition sliceIndex :: "'a list \<Rightarrow> int \<Rightarrow> error + 'a" where
  "sliceIndex xs i = (if 0 \<le> i \<and> i < int (length xs) then Inr (xs ! nat i) else Inl IndexOutOfRange)"

section \<open>The 3-sigmas method\<close>

subsection \<open>Baseline statistics\<close>

text \<open>The first loop of \<^verbatim>\<open>detectOutliers3Sigmas\<close>: \<^verbatim>\<open>sum += stepData.Value\<close>.\<close>

fun sumLoop :: "TimeStepData list \<Rightarrow> real \<Rightarrow> real" where
  "sumLoop [] acc = acc"
| "sumLoop (stepData # rest) acc = sumLoop rest (acc + Value stepData)"

text \<open>The second loop: \<^verbatim>\<open>sd += math.Pow(stepData.Value-mean, 2)\<close>.\<close>

fun sdLoop :: "TimeStepData list \<Rightarrow> real \<Rightarrow> real \<Rightarrow> real" where
  "sdLoop [] mean sd = sd"
| "sdLoop (stepData # rest) mean sd = sdLoop rest mean (sd + (Value stepData - mean) ^ 2)"

text \<open>\<^verbatim>\<open>mean = sum / float64(count)\<close> with \<^verbatim>\<open>count := len(data)\<close>.\<close>

definition meanOf :: "TimeStepData list \<Rightarrow> real" where
  "meanOf data = sumLoop data 0 / real (length data)"

text \<open>\<^verbatim>\<open>sd = math.Sqrt(sd / float64(count))\<close>.\<close>

definition sdOf :: "TimeStepData list \<Rightarrow> real" where
  "sdOf data = sqrt (sdLoop data (meanOf data) 0 / real (length data))"

subsection \<open>Classification of one sample\<close>

text \<open>
  The three branches of the \<^verbatim>\<open>if / else if / else\<close> chain in the third loop, named as the
  comments of the source name them: Z-score above the alarm limit, above the warning
  limit, normal.
\<close>

datatype zscore = Strong | Weak | Normal

definition classify :: "real \<Rightarrow> real \<Rightarrow> real \<Rightarrow> real \<Rightarrow> zscore" where
  "classify mean strongLimit weakLimit v =
     (if \<bar>v - mean\<bar> > strongLimit then Strong
      else if \<bar>v - mean\<bar> > weakLimit then Weak
      else Normal)"

subsection \<open>The event-period state machine\<close>

text \<open>The variables that the third loop updates.\<close>

record loopState =
  warnings :: "eventPeriod list"
  alarms :: "eventPeriod list"
  beginStep :: int
  strongEvent :: bool

text \<open>
  \<^verbatim>\<open>newEvent := eventPeriod{outlierPeriodStart: data[beginStep].DateStart, outlierPeriodEnd: ...}\<close>
\<close>

definition newEvent :: "TimeStepData list \<Rightarrow> int \<Rightarrow> instant \<Rightarrow> error + eventPeriod" where
  "newEvent data begin periodEnd =
     (case sliceIndex data begin of
        Inl e \<Rightarrow> Inl e
      | Inr b \<Rightarrow> Inr \<lparr>outlierPeriodStart = DateStart b, outlierPeriodEnd = periodEnd\<rparr>)"

text \<open>One iteration of the third loop, at index \<open>ind\<close>.\<close>

definition step ::
  "TimeStepData list \<Rightarrow> real \<Rightarrow> real \<Rightarrow> real \<Rightarrow> nat \<Rightarrow> loopState \<Rightarrow> error + loopState" where
  "step data mean strongLimit weakLimit ind st =
     (case sliceIndex data (int ind) of
        Inl e \<Rightarrow> Inl e
      | Inr cur \<Rightarrow>
         (case classify mean strongLimit weakLimit (Value cur) of
            Strong \<Rightarrow>
              if beginStep st = - 1 then
                Inr (st\<lparr>beginStep := int ind, strongEvent := True\<rparr>)
              else if \<not> strongEvent st then
                (case newEvent data (beginStep st) (DateStart cur) of
                   Inl e \<Rightarrow> Inl e
                 | Inr ev \<Rightarrow>
                     Inr (st\<lparr>warnings := warnings st @ [ev],
                              beginStep := int ind, strongEvent := True\<rparr>))
              else Inr st
          | Weak \<Rightarrow>
              if beginStep st = - 1 then
                Inr (st\<lparr>beginStep := int ind, strongEvent := False\<rparr>)
              else if strongEvent st then
                (case newEvent data (beginStep st) (DateStart cur) of
                   Inl e \<Rightarrow> Inl e
                 | Inr ev \<Rightarrow>
                     Inr (st\<lparr>alarms := alarms st @ [ev],
                              beginStep := int ind, strongEvent := False\<rparr>))
              else Inr st
          | Normal \<Rightarrow>
              if beginStep st \<noteq> - 1 then
                (case newEvent data (beginStep st) (DateStart cur) of
                   Inl e \<Rightarrow> Inl e
                 | Inr ev \<Rightarrow>
                     if strongEvent st then
                       Inr (st\<lparr>alarms := alarms st @ [ev], beginStep := - 1\<rparr>)
                     else
                       Inr (st\<lparr>warnings := warnings st @ [ev], beginStep := - 1\<rparr>))
              else Inr st))"

text \<open>\<^verbatim>\<open>for ind := 0; ind < len(data); ind++\<close>, entered at \<open>ind\<close> with state \<open>st\<close>.\<close>

function loop ::
  "TimeStepData list \<Rightarrow> real \<Rightarrow> real \<Rightarrow> real \<Rightarrow> nat \<Rightarrow> loopState \<Rightarrow> error + loopState" where
  "loop data mean strongLimit weakLimit ind st =
     (if ind < length data then
        (case step data mean strongLimit weakLimit ind st of
           Inl e \<Rightarrow> Inl e
         | Inr st' \<Rightarrow> loop data mean strongLimit weakLimit (Suc ind) st')
      else Inr st)"
  by pat_completeness auto
termination
  by (relation "measure (\<lambda>(data, mean, strongLimit, weakLimit, ind, st). length data - ind)") auto

declare loop.simps [simp del]

text \<open>The state before the loop: no lists, \<^verbatim>\<open>beginStep := -1\<close>, \<^verbatim>\<open>strongEvent := false\<close>.\<close>

definition initState :: loopState where
  "initState = \<lparr>warnings = [], alarms = [], beginStep = - 1, strongEvent = False\<rparr>"

text \<open>Closing any event still open at the end of the loop, and the return.\<close>

definition closeOpen ::
  "TimeStepData list \<Rightarrow> instant \<Rightarrow> loopState \<Rightarrow> error + (eventPeriod list \<times> eventPeriod list)" where
  "closeOpen data PeriodEnd st =
     (if beginStep st \<noteq> - 1 then
        (case newEvent data (beginStep st) PeriodEnd of
           Inl e \<Rightarrow> Inl e
         | Inr ev \<Rightarrow>
             if strongEvent st then Inr (warnings st, alarms st @ [ev])
             else Inr (warnings st @ [ev], alarms st))
      else Inr (warnings st, alarms st))"

text \<open>\<^verbatim>\<open>detectOutliers3Sigmas\<close>: the result is the pair (warnings, alarms).\<close>

definition detectOutliers3Sigmas ::
  "TimeStepData list \<Rightarrow> instant \<Rightarrow> real \<Rightarrow> real \<Rightarrow> error + (eventPeriod list \<times> eventPeriod list)" where
  "detectOutliers3Sigmas data PeriodEnd outliersMultiplier strongOutliersMultiplier =
     (let mean = meanOf data;
          sd = sdOf data;
          strongLimit = strongOutliersMultiplier * sd;
          weakLimit = outliersMultiplier * sd
      in case loop data mean strongLimit weakLimit 0 initState of
           Inl e \<Rightarrow> Inl e
         | Inr st \<Rightarrow> closeOpen data PeriodEnd st)"

section \<open>The state machine as the specification words it\<close>

text \<open>
  The specification describes the third loop as a machine over the states
  ``none open'', ``weak open'' and ``strong open'' (each open state remembers the index
  where the period was opened), with a table of nine transitions and a closing rule for
  the end of the series. The definitions of this section follow those words; the
  theorems below compare them with the loop of the source.
\<close>

datatype openPeriod = NoneOpen | WeakOpen nat | StrongOpen nat

type_synonym machine = "openPeriod \<times> eventPeriod list \<times> eventPeriod list"

definition period :: "instant \<Rightarrow> instant \<Rightarrow> eventPeriod" where
  "period s e = \<lparr>outlierPeriodStart = s, outlierPeriodEnd = e\<rparr>"

text \<open>
  The transition table: \<open>t\<close> gives the timestamp of each index, \<open>i\<close> is the index of the
  current sample, the third argument its classification. The second component of a
  machine is the list of warnings, the third the list of alarms.
\<close>

fun transition :: "(nat \<Rightarrow> instant) \<Rightarrow> nat \<Rightarrow> zscore \<Rightarrow> machine \<Rightarrow> machine" where
  "transition t i Normal (NoneOpen, ws, als) = (NoneOpen, ws, als)"
| "transition t i Weak (NoneOpen, ws, als) = (WeakOpen i, ws, als)"
| "transition t i Strong (NoneOpen, ws, als) = (StrongOpen i, ws, als)"
| "transition t i Weak (WeakOpen b, ws, als) = (WeakOpen b, ws, als)"
| "transition t i Strong (WeakOpen b, ws, als) = (StrongOpen i, ws @ [period (t b) (t i)], als)"
| "transition t i Normal (WeakOpen b, ws, als) = (NoneOpen, ws @ [period (t b) (t i)], als)"
| "transition t i Strong (StrongOpen b, ws, als) = (StrongOpen b, ws, als)"
| "transition t i Weak (StrongOpen b, ws, als) = (WeakOpen i, ws, als @ [period (t b) (t i)])"
| "transition t i Normal (StrongOpen b, ws, als) = (NoneOpen, ws, als @ [period (t b) (t i)])"

text \<open>The machine after the first \<open>n\<close> samples, \<open>c\<close> giving the classification of each index.\<close>

primrec machineAfter :: "(nat \<Rightarrow> instant) \<Rightarrow> (nat \<Rightarrow> zscore) \<Rightarrow> nat \<Rightarrow> machine" where
  "machineAfter t c 0 = (NoneOpen, [], [])"
| "machineAfter t c (Suc n) = transition t n (c n) (machineAfter t c n)"

text \<open>After the full pass a period still open is closed at the series-end boundary.\<close>

fun closeMachine :: "(nat \<Rightarrow> instant) \<Rightarrow> instant \<Rightarrow> machine \<Rightarrow> eventPeriod list \<times> eventPeriod list" where
  "closeMachine t boundary (NoneOpen, ws, als) = (ws, als)"
| "closeMachine t boundary (WeakOpen b, ws, als) = (ws @ [period (t b) boundary], als)"
| "closeMachine t boundary (StrongOpen b, ws, als) = (ws, als @ [period (t b) boundary])"

text \<open>
  How a state of the loop is read as a machine: \<^verbatim>\<open>beginStep == -1\<close> is ``none open'',
  whatever \<^verbatim>\<open>strongEvent\<close> holds; otherwise \<^verbatim>\<open>strongEvent\<close> tells weak from strong.
\<close>

definition openPeriodOf :: "loopState \<Rightarrow> openPeriod" where
  "openPeriodOf st =
     (if beginStep st = - 1 then NoneOpen
      else if strongEvent st then StrongOpen (nat (beginStep st))
      else WeakOpen (nat (beginStep st)))"

definition machineOf :: "loopState \<Rightarrow> machine" where
  "machineOf st = (openPeriodOf st, warnings st, alarms st)"

text \<open>The timestamp and the classification of the sample at index \<open>k\<close> of a series.\<close>

definition stamp :: "TimeStepData list \<Rightarrow> nat \<Rightarrow> instant" where
  "stamp data k = DateStart (data ! k)"

definition zscoreAt :: "TimeStepData list \<Rightarrow> real \<Rightarrow> real \<Rightarrow> real \<Rightarrow> nat \<Rightarrow> zscore" where
  "zscoreAt data mean strongLimit weakLimit k =
     classify mean strongLimit weakLimit (Value (data ! k))"

text \<open>
  The states the loop can be in when it enters iteration \<open>n\<close>: \<^verbatim>\<open>beginStep\<close> is \<open>-1\<close> or an
  index already visited.
\<close>

definition okState :: "nat \<Rightarrow> loopState \<Rightarrow> bool" where
  "okState n st = (beginStep st = - 1 \<or> (0 \<le> beginStep st \<and> beginStep st < int n))"

subsection \<open>The baseline as the specification words it\<close>



subsection \<open>Predicates on the emitted periods\<close>

text \<open>A maximal run, to the left, of samples of one classification: every sample of \<open>[b, e)\<close>
  is classified \<open>k\<close> and the sample before \<open>b\<close>, if any, is not.\<close>

definition isRun :: "(nat \<Rightarrow> zscore) \<Rightarrow> zscore \<Rightarrow> nat \<Rightarrow> nat \<Rightarrow> bool" where
  "isRun c k b e = (b < e \<and> (\<forall>i \<in> set [b..<e]. c i = k) \<and> (b = 0 \<or> c (b - 1) \<noteq> k))"

text \<open>The periods of the runs of classification \<open>k\<close> that end inside the first \<open>n\<close> samples: such a
  run starts at \<open>b\<close> (the open index) and is ended by the sample at \<open>e\<close>, the first after it
  that is classified otherwise (the sample that triggers the close).\<close>

definition closedRuns :: "(nat \<Rightarrow> instant) \<Rightarrow> (nat \<Rightarrow> zscore) \<Rightarrow> zscore \<Rightarrow> nat \<Rightarrow> eventPeriod set" where
  "closedRuns t c k n = {period (t b) (t e) | b e. e < n \<and> isRun c k b e \<and> c e \<noteq> k}"

text \<open>What the open state of the machine records after \<open>n\<close> samples.\<close>

definition openInv :: "(nat \<Rightarrow> zscore) \<Rightarrow> nat \<Rightarrow> openPeriod \<Rightarrow> bool" where
  "openInv c n op =
     (case op of
        NoneOpen \<Rightarrow> n = 0 \<or> c (n - 1) = Normal
      | WeakOpen b \<Rightarrow> isRun c Weak b n
      | StrongOpen b \<Rightarrow> isRun c Strong b n)"

text \<open>The period of the run of classification \<open>k\<close> that reaches the end of the series, if any:
  it ends at the boundary passed by the caller.\<close>

definition finalRuns :: "(nat \<Rightarrow> instant) \<Rightarrow> (nat \<Rightarrow> zscore) \<Rightarrow> zscore \<Rightarrow> nat \<Rightarrow> instant \<Rightarrow> eventPeriod set" where
  "finalRuns t c k n boundary = {period (t b) boundary | b. isRun c k b n}"

text \<open>A series of five samples with mean 10 and standard deviation 2.\<close>

definition exampleSeries :: "TimeStepData list" where
  "exampleSeries =
     [\<lparr>DateStart = 0, Value = 10, Samples = 100\<rparr>,
      \<lparr>DateStart = 10, Value = 13, Samples = 100\<rparr>,
      \<lparr>DateStart = 20, Value = 7, Samples = 100\<rparr>,
      \<lparr>DateStart = 30, Value = 11, Samples = 100\<rparr>,
      \<lparr>DateStart = 40, Value = 9, Samples = 100\<rparr>]"

text \<open>One period ends no later than another starts.\<close>

definition before :: "eventPeriod \<Rightarrow> eventPeriod \<Rightarrow> bool" where
  "before p q = (outlierPeriodEnd p \<le> outlierPeriodStart q)"

text \<open>The instants of a period, its end excluded.\<close>

definition halfOpen :: "eventPeriod \<Rightarrow> instant set" where
  "halfOpen p = {outlierPeriodStart p ..< outlierPeriodEnd p}"

text \<open>No two periods of a list share an instant.\<close>

definition pairwiseDisjoint :: "eventPeriod list \<Rightarrow> bool" where
  "pairwiseDisjoint ps =
     (\<forall>i < length ps. \<forall>j < length ps. i \<noteq> j \<longrightarrow> halfOpen (ps ! i) \<inter> halfOpen (ps ! j) = {})"

text \<open>The index no closed period reaches beyond: the open index, or \<open>n\<close> when none is open.\<close>

definition frontier :: "nat \<Rightarrow> openPeriod \<Rightarrow> nat" where
  "frontier n op = (case op of NoneOpen \<Rightarrow> n | WeakOpen b \<Rightarrow> b | StrongOpen b \<Rightarrow> b)"

text \<open>A period closed inside the first \<open>n\<close> samples, ending at an index not after \<open>f\<close>.\<close>

definition closedUpTo :: "(nat \<Rightarrow> instant) \<Rightarrow> nat \<Rightarrow> nat \<Rightarrow> eventPeriod \<Rightarrow> bool" where
  "closedUpTo t n f p = (\<exists>b e. b < e \<and> e < n \<and> e \<le> f \<and> p = period (t b) (t e))"

text \<open>Each list is in chronological order without overlap, and no warning overlaps an alarm.\<close>

definition ordered :: "eventPeriod list \<Rightarrow> eventPeriod list \<Rightarrow> bool" where
  "ordered ws als =
     (sorted_wrt before ws \<and> sorted_wrt before als \<and>
      (\<forall>p \<in> set ws. \<forall>q \<in> set als. before p q \<or> before q p))"

text \<open>The invariant of the machine after \<open>n\<close> samples of a series with increasing timestamps.\<close>

definition machineInv :: "(nat \<Rightarrow> instant) \<Rightarrow> nat \<Rightarrow> machine \<Rightarrow> bool" where
  "machineInv t n m =
     (case m of (op, ws, als) \<Rightarrow>
        frontier n op \<le> n \<and> (op \<noteq> NoneOpen \<longrightarrow> frontier n op < n) \<and> ordered ws als \<and>
        (\<forall>p \<in> set ws \<union> set als. closedUpTo t n (frontier n op) p))"

text \<open>A period with start not after its end, inside the window \<open>[lo, hi]\<close>.\<close>

definition inWindow :: "instant \<Rightarrow> instant \<Rightarrow> eventPeriod \<Rightarrow> bool" where
  "inWindow lo hi p =
     (outlierPeriodStart p \<le> outlierPeriodEnd p \<and> lo \<le> outlierPeriodStart p \<and>
      outlierPeriodEnd p \<le> hi)"

subsection \<open>The reference series\<close>

text \<open>The values of the reference series of \<^verbatim>\<open>TestDetectOutliers3Sigmas\<close>.\<close>

definition refValues :: "real list" where
  "refValues = [221, 254, 270, 264, 244, 241, 238, 243, 277, 237, 254, 289, 278, 264, 265,
     243, 284, 244, 212, 242, 271, 243, 252, 230, 238, 214, 234, 1027, 1057, 911]"

text \<open>The reference series, as the test builds it: sample \<open>i\<close> carries value \<open>i\<close> of the list, 100
  samples, and a timestamp \<open>t i\<close> (in the test, one day after the timestamp of the sample before).\<close>

definition refData :: "(nat \<Rightarrow> instant) \<Rightarrow> TimeStepData list" where
  "refData t = map (\<lambda>i. \<lparr>DateStart = t i, Value = refValues ! i, Samples = 100\<rparr>) [0..<length refValues]"

section \<open>The duration parser\<close>

text \<open>
  \<^verbatim>\<open>utils.StrToDuration\<close>. A Go string is a sequence of bytes, here a list of characters. An
  \<^verbatim>\<open>int64\<close> is an integer kept in range by \<open>wrap64\<close>, which is what Go's \<open>+\<close> and \<open>*\<close> do on
  overflow. Every error the function returns is built from the whole input string.
\<close>

definition wrap64 :: "int \<Rightarrow> int" where
  "wrap64 x = (x + 2 ^ 63) mod 2 ^ 64 - 2 ^ 63"

text \<open>
  The table of units: \<^verbatim>\<open>time.Nanosecond\<close> is 1, \<^verbatim>\<open>time.Microsecond\<close> 1000, and so on up to
  \<^verbatim>\<open>time.Hour\<close>; a day is 24 hours and a week 168 hours.
\<close>

definition unitMap :: "string \<rightharpoonup> int" where
  "unitMap = map_of
     [(''ns'', 1),
      (''us'', 1000),
      (''ms'', 1000000),
      (''s'', 1000000000),
      (''m'', 60000000000),
      (''h'', 3600000000000),
      (''d'', 3600000000000 * 24),
      (''w'', 3600000000000 * 168)]"

text \<open>\<^verbatim>\<open>timeStep[i] >= '0' && timeStep[i] <= '9'\<close>, a comparison of bytes.\<close>

definition isDigit :: "char \<Rightarrow> bool" where
  "isDigit c = ((of_char (CHR ''0'') :: nat) \<le> of_char c \<and> (of_char c :: nat) \<le> of_char (CHR ''9''))"

text \<open>\<^verbatim>\<open>s[lo:hi]\<close> on a Go string: a panic unless \<open>lo \<le> hi \<le> len(s)\<close>.\<close>

definition slice :: "string \<Rightarrow> nat \<Rightarrow> nat \<Rightarrow> error + string" where
  "slice s lo hi =
     (if lo \<le> hi \<and> hi \<le> length s then Inr (take (hi - lo) (drop lo s)) else Inl IndexOutOfRange)"

definition digitValue :: "char \<Rightarrow> int" where
  "digitValue c = int (of_char c) - int (of_char (CHR ''0''))"

fun decimal :: "string \<Rightarrow> int \<Rightarrow> int" where
  "decimal [] n = n"
| "decimal (c # cs) n = decimal cs (10 * n + digitValue c)"

text \<open>
  \<^verbatim>\<open>strconv.ParseInt(s, 10, 64)\<close> of the standard library, on the strings that
  \<^verbatim>\<open>StrToDuration\<close> passes to it, which hold decimal digits only: an error for the empty
  string (a syntax error) and for a value above \<open>2\<^sup>6\<^sup>3 - 1\<close> (a range error), the value
  otherwise. \<^verbatim>\<open>StrToDuration\<close> replaces either error by its own, built from \<open>timeStep\<close>.
\<close>

definition ParseInt :: "string \<Rightarrow> string \<Rightarrow> error + int" where
  "ParseInt timeStep s =
     (if s = [] \<or> \<not> list_all isDigit s then Inl (InvalidDuration timeStep)
      else if decimal s 0 > 2 ^ 63 - 1 then Inl (InvalidDuration timeStep)
      else Inr (decimal s 0))"

text \<open>
  The inner loop, \<^verbatim>\<open>for timeStep[i] >= '0' && timeStep[i] <= '9' { i++; if i == len(timeStep)
  { return 0, err } }\<close>: the index of the first byte that is not a digit.
\<close>

function digitsLoop :: "string \<Rightarrow> nat \<Rightarrow> error + nat" where
  "digitsLoop timeStep i =
     (if \<not> i < length timeStep then Inl IndexOutOfRange
      else if isDigit (timeStep ! i) then
        (if Suc i = length timeStep then Inl (InvalidDuration timeStep)
         else digitsLoop timeStep (Suc i))
      else Inr i)"
  by pat_completeness auto
termination
  by (relation "measure (\<lambda>(timeStep, i). length timeStep - i)") auto

declare digitsLoop.simps [simp del]

text \<open>
  The unit after the number: first the one-byte unit \<^verbatim>\<open>timeStep[i:i+1]\<close>, and only when the
  table does not have it, and a byte follows, the two-byte unit \<^verbatim>\<open>timeStep[i-1:i+1]\<close> (with
  \<open>i\<close> already incremented). The result is the multiplier and the index after the unit.
\<close>

definition lookupUnit :: "string \<Rightarrow> nat \<Rightarrow> error + (int \<times> nat)" where
  "lookupUnit timeStep i =
     (case slice timeStep i (i + 1) of
        Inl e \<Rightarrow> Inl e
      | Inr u1 \<Rightarrow>
          (case unitMap u1 of
             Some multiplier \<Rightarrow> Inr (multiplier, i + 1)
           | None \<Rightarrow>
               if i + 1 < length timeStep then
                 (case slice timeStep i (i + 2) of
                    Inl e \<Rightarrow> Inl e
                  | Inr u2 \<Rightarrow>
                      (case unitMap u2 of
                         Some multiplier \<Rightarrow> Inr (multiplier, i + 2)
                       | None \<Rightarrow> Inl (InvalidDuration timeStep)))
               else Inl (InvalidDuration timeStep)))"

text \<open>
  The body of the outer loop: one number and its unit, starting at \<open>index\<close>; it gives the
  next index and \<^verbatim>\<open>res + num * multiplier\<close>.
\<close>

definition parseGroup :: "string \<Rightarrow> nat \<Rightarrow> int \<Rightarrow> error + (nat \<times> int)" where
  "parseGroup timeStep index res =
     (case digitsLoop timeStep index of
        Inl e \<Rightarrow> Inl e
      | Inr i \<Rightarrow>
          (case slice timeStep index i of
             Inl e \<Rightarrow> Inl e
           | Inr digits \<Rightarrow>
               (case ParseInt timeStep digits of
                  Inl e \<Rightarrow> Inl e
                | Inr num \<Rightarrow>
                    (case lookupUnit timeStep i of
                       Inl e \<Rightarrow> Inl e
                     | Inr (multiplier, i') \<Rightarrow>
                         Inr (i', wrap64 (res + wrap64 (num * multiplier)))))))"

text \<open>
  The outer loop, \<^verbatim>\<open>for index < len(timeStep)\<close>. Each pass moves the index forward (the
  inner loop never moves it back, and the unit takes one or two bytes), so the loop ends.
\<close>

function groupsLoop :: "string \<Rightarrow> nat \<Rightarrow> int \<Rightarrow> error + int" where
  "groupsLoop timeStep index res =
     (if index < length timeStep then
        (case parseGroup timeStep index res of
           Inl e \<Rightarrow> Inl e
         | Inr (i', res') \<Rightarrow> groupsLoop timeStep i' res')
      else Inr res)"
  by pat_completeness auto
termination
proof -
  have ge: "i \<le> j" if "digitsLoop timeStep i = Inr j" for timeStep i j
    using that
    by (induction timeStep i rule: digitsLoop.induct)
       (subst (asm) digitsLoop.simps, auto split: if_splits)
  have advances: "index < i'" if "parseGroup timeStep index res = Inr (i', res')"
    for timeStep index res i' res'
    using that
    by (auto simp: parseGroup_def lookupUnit_def split: sum.splits option.splits if_splits
          dest: ge)
  show ?thesis
    by (relation "measure (\<lambda>(timeStep, index, res). length timeStep - index)")
       (auto dest: advances)
qed

declare groupsLoop.simps [simp del]

text \<open>\<^verbatim>\<open>StrToDuration\<close>: the duration in nanoseconds, or the error.\<close>

definition StrToDuration :: "string \<Rightarrow> error + int" where
  "StrToDuration timeStep =
     (if length timeStep = 0 then Inl (InvalidDuration timeStep)
      else groupsLoop timeStep 0 0)"

section \<open>The report of a site\<close>

text \<open>\<^verbatim>\<open>collector.MetricData\<close>: the attribute (or sub-value) combinations of a metric in order, and the
  series of each. \<^verbatim>\<open>AttributeData\<close> is a Go map.\<close>

record MetricData =
  Metric :: string
  Unit :: string
  Attributes :: "string list"
  AttributeData :: "string \<rightharpoonup> TimeStepData list"

text \<open>\<^verbatim>\<open>collector.SiteData\<close>. Its fields \<^verbatim>\<open>SiteId\<close>, \<^verbatim>\<open>DateStart\<close> and \<^verbatim>\<open>DateEnd\<close> carry the suffix
  \<open>_data\<close> here, the fields of the same names of the report keep theirs.\<close>

record SiteData =
  SiteId_data :: string
  DateStart_data :: instant
  DateEnd_data :: instant
  Metrics :: "MetricData list"

text \<open>\<^verbatim>\<open>config.Dataset\<close>, without the collection filters, which the analyser does not read. The
  fields that the report copies carry the suffix \<open>_conf\<close>.\<close>

record Dataset =
  SiteId_conf :: string
  TimeAgo_conf :: string
  TimeStep_conf :: string
  OutliersDetectionMethod_conf :: string
  MetricesList :: "string list"

text \<open>\<^verbatim>\<open>config.ThreeSigmasParams\<close>\<close>

record ThreeSigmasParams =
  OutliersMultiplier :: real
  StrongOutliersMultiplier :: real

text \<open>\<^verbatim>\<open>config.DetectionMethodsParams\<close>\<close>

record DetectionMethodsParams =
  ThreeSigmas :: ThreeSigmasParams

text \<open>\<^verbatim>\<open>analyser.OutlierEvent\<close>\<close>

record OutlierEvent =
  OutlierPeriodStart :: instant
  OutlierPeriodEnd :: instant
  Metric_event :: string
  Attribute :: string

text \<open>\<^verbatim>\<open>analyser.OutlierResults\<close>\<close>

record OutlierResults =
  Warnings :: "OutlierEvent list"
  Alarms :: "OutlierEvent list"

text \<open>\<^verbatim>\<open>analyser.OutlierReport\<close>\<close>

record OutlierReport =
  SiteId :: string
  OutliersDetectionMethod :: string
  CheckDateStart :: instant
  CheckDateEnd :: instant
  TimeAgo :: string
  TimeStep :: string
  DateStart_report :: instant
  DateEnd_report :: instant
  Result :: OutlierResults

text \<open>\<^verbatim>\<open>metricData.AttributeData[attribute]\<close>: a key that the map does not have gives the nil
  slice, of length 0.\<close>

definition attributeSeries :: "MetricData \<Rightarrow> string \<Rightarrow> TimeStepData list" where
  "attributeSeries metricData attribute =
     (case AttributeData metricData attribute of None \<Rightarrow> [] | Some data \<Rightarrow> data)"

text \<open>The event that \<^verbatim>\<open>GetResults\<close> builds from a period, labelled with the metric and attribute.\<close>

definition newOutlierEvent :: "MetricData \<Rightarrow> string \<Rightarrow> eventPeriod \<Rightarrow> OutlierEvent" where
  "newOutlierEvent metricData attribute ev =
     \<lparr>OutlierPeriodStart = outlierPeriodStart ev,
      OutlierPeriodEnd = outlierPeriodEnd ev,
      Metric_event = Metric metricData,
      Attribute = attribute\<rparr>"

text \<open>The line that the default branch logs with \<^verbatim>\<open>log.Printf\<close>, \<^verbatim>\<open>Detection Method %s not implemented\<close>,
  without the date that the logger puts before it.\<close>

definition notImplemented :: "string \<Rightarrow> string" where
  "notImplemented method = ''Detection Method '' @ method @ '' not implemented''"

text \<open>The \<^verbatim>\<open>switch res.OutliersDetectionMethod\<close> of \<^verbatim>\<open>GetResults\<close>: the periods found for one attribute
  of one metric, and the lines logged.\<close>

definition detect ::
  "SiteData \<Rightarrow> DetectionMethodsParams \<Rightarrow> string \<Rightarrow> MetricData \<Rightarrow> string \<Rightarrow>
   error + ((eventPeriod list \<times> eventPeriod list) \<times> string list)" where
  "detect siteData methodParams method metricData attribute =
     (if method = ''3-sigmas'' then
        (case detectOutliers3Sigmas (attributeSeries metricData attribute) (DateEnd_data siteData)
                (OutliersMultiplier (ThreeSigmas methodParams))
                (StrongOutliersMultiplier (ThreeSigmas methodParams)) of
           Inl e \<Rightarrow> Inl e
         | Inr r \<Rightarrow> Inr (r, []))
      else Inr (([], []), [notImplemented method]))"

text \<open>\<^verbatim>\<open>for _, attribute := range metricData.Attributes\<close>: the report under construction and the
  log are the state.\<close>

fun attributesLoop ::
  "SiteData \<Rightarrow> DetectionMethodsParams \<Rightarrow> MetricData \<Rightarrow> string list \<Rightarrow>
   OutlierReport \<times> string list \<Rightarrow> error + (OutlierReport \<times> string list)" where
  "attributesLoop siteData methodParams metricData [] (res, logged) = Inr (res, logged)"
| "attributesLoop siteData methodParams metricData (attribute # rest) (res, logged) =
     (case detect siteData methodParams (OutliersDetectionMethod res) metricData attribute of
        Inl e \<Rightarrow> Inl e
      | Inr ((warnings', alarms'), lines) \<Rightarrow>
          attributesLoop siteData methodParams metricData rest
            (res\<lparr>Result :=
                 \<lparr>Warnings = Warnings (Result res) @ map (newOutlierEvent metricData attribute) warnings',
                  Alarms = Alarms (Result res) @ map (newOutlierEvent metricData attribute) alarms'\<rparr>\<rparr>,
             logged @ lines))"

text \<open>\<^verbatim>\<open>for _, metricData := range siteData.Metrics\<close>\<close>

fun metricsLoop ::
  "SiteData \<Rightarrow> DetectionMethodsParams \<Rightarrow> MetricData list \<Rightarrow>
   OutlierReport \<times> string list \<Rightarrow> error + (OutlierReport \<times> string list)" where
  "metricsLoop siteData methodParams [] st = Inr st"
| "metricsLoop siteData methodParams (metricData # rest) st =
     (case attributesLoop siteData methodParams metricData (Attributes metricData) st of
        Inl e \<Rightarrow> Inl e
      | Inr st' \<Rightarrow> metricsLoop siteData methodParams rest st')"

text \<open>\<^verbatim>\<open>GetResults\<close>. The two readings of the clock, \<^verbatim>\<open>time.Now()\<close> before and after the loops, are
  the arguments \<open>now0\<close> and \<open>now1\<close>; the result is the report and the lines logged. Until the
  loops are over \<^verbatim>\<open>CheckDateEnd\<close> holds the zero value of its type.\<close>

definition GetResults ::
  "SiteData \<Rightarrow> Dataset \<Rightarrow> DetectionMethodsParams \<Rightarrow> instant \<Rightarrow> instant \<Rightarrow>
   error + (OutlierReport \<times> string list)" where
  "GetResults siteData dataConf methodParams now0 now1 =
     (let res = \<lparr>SiteId = SiteId_data siteData,
                  OutliersDetectionMethod = OutliersDetectionMethod_conf dataConf,
                  CheckDateStart = now0,
                  CheckDateEnd = 0,
                  TimeAgo = TimeAgo_conf dataConf,
                  TimeStep = TimeStep_conf dataConf,
                  DateStart_report = DateStart_data siteData,
                  DateEnd_report = DateEnd_data siteData,
                  Result = \<lparr>Warnings = [], Alarms = []\<rparr>\<rparr>
      in case metricsLoop siteData methodParams (Metrics siteData) (res, []) of
           Inl e \<Rightarrow> Inl e
         | Inr (res', logged) \<Rightarrow> Inr (res'\<lparr>CheckDateEnd := now1\<rparr>, logged))"

section \<open>The report as JSON\<close>

text \<open>A JSON value, as far as a report needs it. A \<^verbatim>\<open>time.Time\<close> is written as a string in the format
  of RFC 3339; \<open>JTime\<close> stands for that string.\<close>

datatype json = JString string | JTime instant | JArray "json list" | JObject "(string \<times> json) list"

text \<open>\<^verbatim>\<open>json.MarshalIndent\<close> on a struct writes an object with one member for each exported field, in
  the order of the declaration, under the name that the field's \<^verbatim>\<open>json\<close> tag gives.\<close>

definition marshalOutlierEvent :: "OutlierEvent \<Rightarrow> json" where
  "marshalOutlierEvent ev =
     JObject [(''outlierPeriodStart'', JTime (OutlierPeriodStart ev)),
              (''outlierPeriodEnd'', JTime (OutlierPeriodEnd ev)),
              (''metric'', JString (Metric_event ev)),
              (''attribute'', JString (Attribute ev))]"

text \<open>The tags of \<^verbatim>\<open>OutlierResults\<close>.\<close>

definition marshalOutlierResults :: "OutlierResults \<Rightarrow> json" where
  "marshalOutlierResults r =
     JObject [(''warnings'', JArray (map marshalOutlierEvent (Warnings r))),
              (''alarms'', JArray (map marshalOutlierEvent (Alarms r)))]"

text \<open>The tags of \<^verbatim>\<open>OutlierReport\<close>, as \<^verbatim>\<open>utils.WriteJsonStruct\<close> writes a report to the report file.\<close>

definition marshalOutlierReport :: "OutlierReport \<Rightarrow> json" where
  "marshalOutlierReport r =
     JObject [(''siteId'', JString (SiteId r)),
              (''outliersDetectionMethod'', JString (OutliersDetectionMethod r)),
              (''checkTimeStart'', JTime (CheckDateStart r)),
              (''checkTimeEnd'', JTime (CheckDateEnd r)),
              (''timeAgo'', JString (TimeAgo r)),
              (''timeStep'', JString (TimeStep r)),
              (''dateStart'', JTime (DateStart_report r)),
              (''dateEnd'', JTime (DateEnd_report r)),
              (''result'', marshalOutlierResults (Result r))]"

text \<open>The members of an object.\<close>

fun fields :: "json \<Rightarrow> (string \<times> json) list" where
  "fields (JObject kvs) = kvs"
| "fields _ = []"

text \<open>The names of the members of an object, in order.\<close>

definition fieldNames :: "json \<Rightarrow> string list" where
  "fieldNames j = map fst (fields j)"

text \<open>The names that the data model of the specification gives to the members of a report.\<close>

definition specFieldNames :: "string list" where
  "specFieldNames =
     [''siteId'', ''methodName'', ''checkStart'', ''checkEnd'', ''timeAgo'', ''timeStep'',
      ''seriesStart'', ''seriesEnd'', ''warnings'', ''alarms'']"

subsection \<open>An example site\<close>

text \<open>A site with one metric and one attribute, whose series is the example series.\<close>

definition exampleSite :: SiteData where
  "exampleSite =
     \<lparr>SiteId_data = ''site1'', DateStart_data = 0, DateEnd_data = 100,
      Metrics = [\<lparr>Metric = ''visits'', Unit = ''count'', Attributes = [''Total''],
                  AttributeData = [''Total'' \<mapsto> exampleSeries]\<rparr>]\<rparr>"

text \<open>A configuration of the site with a given name of the detection method.\<close>

definition exampleConf :: "string \<Rightarrow> Dataset" where
  "exampleConf method =
     \<lparr>SiteId_conf = ''site1'', TimeAgo_conf = ''1d'', TimeStep_conf = ''1h'',
      OutliersDetectionMethod_conf = method, MetricesList = [''visits'']\<rparr>"

text \<open>Multipliers under which the example series has one warning and one alarm.\<close>

definition exampleParams :: DetectionMethodsParams where
  "exampleParams = \<lparr>ThreeSigmas = \<lparr>OutliersMultiplier = 1 / 4, StrongOutliersMultiplier = 1\<rparr>\<rparr>"

section \<open>Properties\<close>

subsection \<open>The loop never reads out of range and refines the machine\<close>

lemma sliceIndex_in_range: "i < length xs \<Longrightarrow> sliceIndex xs (int i) = Inr (xs ! i)"
  by (simp add: sliceIndex_def)

lemma newEvent_in_range:
  "0 \<le> b \<Longrightarrow> b < int (length data) \<Longrightarrow>
   newEvent data b e = Inr (period (DateStart (data ! nat b)) e)"
  by (simp add: newEvent_def sliceIndex_def period_def)

lemma okState_init: "okState 0 initState"
  by (simp add: okState_def initState_def)

lemma machineOf_init: "machineOf initState = (NoneOpen, [], [])"
  by (simp add: machineOf_def openPeriodOf_def initState_def)

lemma step_transition:
  assumes "ind < length data" and "okState ind st"
  shows "\<exists>st'. step data mean strongLimit weakLimit ind st = Inr st' \<and> okState (Suc ind) st' \<and>
           machineOf st' =
             transition (stamp data) ind (zscoreAt data mean strongLimit weakLimit ind) (machineOf st)"
proof (cases "beginStep st = - 1")
  case True
  then show ?thesis using assms
    by (cases "classify mean strongLimit weakLimit (Value (data ! ind))")
       (simp_all add: step_def sliceIndex_in_range okState_def machineOf_def openPeriodOf_def
          zscoreAt_def stamp_def)
next
  case False
  with assms have b: "0 \<le> beginStep st" "beginStep st < int (length data)" "beginStep st < int ind"
    by (auto simp: okState_def)
  show ?thesis using assms False b
    by (cases "classify mean strongLimit weakLimit (Value (data ! ind))"; cases "strongEvent st")
       (simp_all add: step_def sliceIndex_in_range newEvent_in_range okState_def machineOf_def
          openPeriodOf_def zscoreAt_def stamp_def)
qed

lemma loop_machine:
  assumes "okState ind st" and "ind \<le> length data"
    and "machineOf st = machineAfter (stamp data) (zscoreAt data mean strongLimit weakLimit) ind"
  shows "\<exists>st'. loop data mean strongLimit weakLimit ind st = Inr st' \<and> okState (length data) st' \<and>
           machineOf st' =
             machineAfter (stamp data) (zscoreAt data mean strongLimit weakLimit) (length data)"
  using assms
proof (induction data mean strongLimit weakLimit ind st rule: loop.induct)
  case (1 data mean strongLimit weakLimit ind st)
  show ?case
  proof (cases "ind < length data")
    case True
    from step_transition [OF True "1.prems"(1), of mean strongLimit weakLimit]
    obtain st1 where s: "step data mean strongLimit weakLimit ind st = Inr st1"
      and ok: "okState (Suc ind) st1"
      and m: "machineOf st1 =
                transition (stamp data) ind (zscoreAt data mean strongLimit weakLimit ind) (machineOf st)"
      by blast
    have m1: "machineOf st1 =
                machineAfter (stamp data) (zscoreAt data mean strongLimit weakLimit) (Suc ind)"
      using m "1.prems"(3) by simp
    from "1.IH" [OF True s ok _ m1] True
    obtain st' where l: "loop data mean strongLimit weakLimit (Suc ind) st1 = Inr st'"
      and r: "okState (length data) st'"
         "machineOf st' =
            machineAfter (stamp data) (zscoreAt data mean strongLimit weakLimit) (length data)"
      by auto
    have "loop data mean strongLimit weakLimit ind st = Inr st'"
      using True s l by (subst loop.simps) simp
    with r show ?thesis by simp
  next
    case False
    with "1.prems" have "ind = length data" by simp
    then show ?thesis using "1.prems" by (subst loop.simps) simp
  qed
qed

lemma closeOpen_machine:
  assumes "okState (length data) st"
  shows "closeOpen data PeriodEnd st = Inr (closeMachine (stamp data) PeriodEnd (machineOf st))"
proof (cases "beginStep st = - 1")
  case True
  then show ?thesis
    by (simp add: closeOpen_def machineOf_def openPeriodOf_def)
next
  case False
  with assms have "0 \<le> beginStep st" "beginStep st < int (length data)"
    by (auto simp: okState_def)
  with False show ?thesis
    by (simp add: closeOpen_def machineOf_def openPeriodOf_def newEvent_in_range stamp_def)
qed

lemma detect_machine:
  "detectOutliers3Sigmas data PeriodEnd outliersMultiplier strongOutliersMultiplier =
     Inr (closeMachine (stamp data) PeriodEnd
            (machineAfter (stamp data)
               (zscoreAt data (meanOf data) (strongOutliersMultiplier * sdOf data)
                  (outliersMultiplier * sdOf data))
               (length data)))"
proof -
  let ?m = "meanOf data" and ?s = "strongOutliersMultiplier * sdOf data"
    and ?w = "outliersMultiplier * sdOf data"
  from loop_machine [OF okState_init, of data ?m ?s ?w]
  obtain st where "loop data ?m ?s ?w 0 initState = Inr st" "okState (length data) st"
    "machineOf st = machineAfter (stamp data) (zscoreAt data ?m ?s ?w) (length data)"
    by (auto simp: machineOf_init)
  then show ?thesis
    by (simp add: detectOutliers3Sigmas_def closeOpen_machine Let_def)
qed

subsection \<open>The transition table\<close>


subsection \<open>The empty series\<close>

text \<open>
  Claim C10. For the empty series \<^verbatim>\<open>detectOutliers3Sigmas\<close> returns two empty lists,
  whatever the multipliers and the boundary are: the loop runs no iteration and no
  period is open at its end, so the statistics (computed with a division by a count of
  zero) are never looked at.
\<close>

theorem detectOutliers3Sigmas_empty:
  "detectOutliers3Sigmas [] PeriodEnd outliersMultiplier strongOutliersMultiplier = Inr ([], [])"
  by (simp add: detectOutliers3Sigmas_def loop.simps initState_def closeOpen_def)

subsection \<open>Periods are maximal runs\<close>

lemma isRun_last: "isRun c k b n \<Longrightarrow> 0 < n \<and> c (n - 1) = k"
  by (auto simp: isRun_def)

lemma isRun_unique:
  assumes "isRun c k b n" and "isRun c k b' n"
  shows "b = b'"
proof (rule ccontr)
  assume ne: "b \<noteq> b'"
  have aux: "False" if "isRun c k x n" "isRun c k y n" "x < y" for x y
  proof -
    from that have "x \<le> y - 1" "y - 1 < n" "y \<noteq> 0" by (auto simp: isRun_def)
    with that(1) have "c (y - 1) = k" by (auto simp: isRun_def)
    with that(2) \<open>y \<noteq> 0\<close> show False by (auto simp: isRun_def)
  qed
  from ne have "b < b' \<or> b' < b" by auto
  with aux assms show False by blast
qed

lemma isRun_kind: "isRun c k b n \<Longrightarrow> isRun c k' b' n \<Longrightarrow> k = k'"
  by (auto dest!: isRun_last)

lemma isRun_extend: "isRun c k b n \<Longrightarrow> c n = k \<Longrightarrow> isRun c k b (Suc n)"
  by (auto simp: isRun_def less_Suc_eq)

lemma isRun_start: "n = 0 \<or> c (n - 1) \<noteq> k \<Longrightarrow> c n = k \<Longrightarrow> isRun c k n (Suc n)"
  by (auto simp: isRun_def)

lemma closedRuns_0: "closedRuns t c k 0 = {}"
  by (simp add: closedRuns_def)

lemma closedRuns_Suc_same: "c n = k \<Longrightarrow> closedRuns t c k (Suc n) = closedRuns t c k n"
  by (auto simp: closedRuns_def less_Suc_eq)

lemma closedRuns_Suc_none:
  "n = 0 \<or> c (n - 1) \<noteq> k \<Longrightarrow> closedRuns t c k (Suc n) = closedRuns t c k n"
  by (auto simp: closedRuns_def less_Suc_eq dest: isRun_last)

lemma closedRuns_Suc_close:
  assumes "isRun c k b n" and "c n \<noteq> k"
  shows "closedRuns t c k (Suc n) = insert (period (t b) (t n)) (closedRuns t c k n)"
  using assms by (auto simp: closedRuns_def less_Suc_eq dest: isRun_unique)

lemma machineAfter_runs:
  "\<exists>op ws als. machineAfter t c n = (op, ws, als) \<and> openInv c n op \<and>
     set ws = closedRuns t c Weak n \<and> set als = closedRuns t c Strong n"
proof (induction n)
  case 0
  then show ?case by (simp add: openInv_def closedRuns_0)
next
  case (Suc n)
  then obtain op ws als where m: "machineAfter t c n = (op, ws, als)" and o: "openInv c n op"
    and w: "set ws = closedRuns t c Weak n" and a: "set als = closedRuns t c Strong n"
    by blast
  show ?case
  proof (cases op)
    case NoneOpen
    with o have p: "n = 0 \<or> c (n - 1) = Normal" by (simp add: openInv_def)
    then have q: "n = 0 \<or> c (n - 1) \<noteq> Weak" "n = 0 \<or> c (n - 1) \<noteq> Strong" by auto
    have cw: "closedRuns t c Weak (Suc n) = closedRuns t c Weak n"
      using q(1) by (rule closedRuns_Suc_none)
    have cs: "closedRuns t c Strong (Suc n) = closedRuns t c Strong n"
      using q(2) by (rule closedRuns_Suc_none)
    show ?thesis using m NoneOpen w a p
      by (cases "c n") (auto simp: openInv_def cw cs intro: isRun_start)
  next
    case (WeakOpen b)
    with o have r: "isRun c Weak b n" by (simp add: openInv_def)
    then have l: "0 < n" "c (n - 1) = Weak" by (auto dest: isRun_last)
    then have q: "n = 0 \<or> c (n - 1) \<noteq> Strong" by auto
    have cs: "closedRuns t c Strong (Suc n) = closedRuns t c Strong n"
      using q by (rule closedRuns_Suc_none)
    show ?thesis
    proof (cases "c n")
      case Strong
      then show ?thesis using m WeakOpen w a l r
        by (simp add: openInv_def closedRuns_Suc_same closedRuns_Suc_close isRun_start)
    next
      case Weak
      then show ?thesis using m WeakOpen w a r
        by (simp add: openInv_def closedRuns_Suc_same cs isRun_extend)
    next
      case Normal
      then show ?thesis using m WeakOpen w a r
        by (simp add: openInv_def cs closedRuns_Suc_close)
    qed
  next
    case (StrongOpen b)
    with o have r: "isRun c Strong b n" by (simp add: openInv_def)
    then have l: "0 < n" "c (n - 1) = Strong" by (auto dest: isRun_last)
    then have q: "n = 0 \<or> c (n - 1) \<noteq> Weak" by auto
    have cw: "closedRuns t c Weak (Suc n) = closedRuns t c Weak n"
      using q by (rule closedRuns_Suc_none)
    show ?thesis
    proof (cases "c n")
      case Strong
      then show ?thesis using m StrongOpen w a r
        by (simp add: openInv_def closedRuns_Suc_same cw isRun_extend)
    next
      case Weak
      then show ?thesis using m StrongOpen w a l r
        by (simp add: openInv_def closedRuns_Suc_same closedRuns_Suc_close isRun_start)
    next
      case Normal
      then show ?thesis using m StrongOpen w a r
        by (simp add: openInv_def cw closedRuns_Suc_close)
    qed
  qed
qed

lemma closeMachine_runs:
  assumes "openInv c n op"
  shows "closeMachine t pe (op, ws, als) = (ws', als') \<Longrightarrow>
    set ws' = set ws \<union> finalRuns t c Weak n pe \<and> set als' = set als \<union> finalRuns t c Strong n pe"
proof (cases op)
  case NoneOpen
  with assms have "n = 0 \<or> c (n - 1) = Normal" by (simp add: openInv_def)
  then have "finalRuns t c Weak n pe = {}" "finalRuns t c Strong n pe = {}"
    by (auto simp: finalRuns_def dest: isRun_last)
  with NoneOpen show "closeMachine t pe (op, ws, als) = (ws', als') \<Longrightarrow> ?thesis" by auto
next
  case (WeakOpen b)
  with assms have r: "isRun c Weak b n" by (simp add: openInv_def)
  then have "finalRuns t c Weak n pe = {period (t b) pe}"
    by (auto simp: finalRuns_def dest: isRun_unique)
  moreover from r have "finalRuns t c Strong n pe = {}"
    by (auto simp: finalRuns_def dest: isRun_kind)
  ultimately show "closeMachine t pe (op, ws, als) = (ws', als') \<Longrightarrow> ?thesis"
    using WeakOpen by auto
next
  case (StrongOpen b)
  with assms have r: "isRun c Strong b n" by (simp add: openInv_def)
  then have "finalRuns t c Strong n pe = {period (t b) pe}"
    by (auto simp: finalRuns_def dest: isRun_unique)
  moreover from r have "finalRuns t c Weak n pe = {}"
    by (auto simp: finalRuns_def dest: isRun_kind)
  ultimately show "closeMachine t pe (op, ws, als) = (ws', als') \<Longrightarrow> ?thesis"
    using StrongOpen by auto
qed

text \<open>
  Claim C1. The warnings that \<^verbatim>\<open>detectOutliers3Sigmas\<close> returns are exactly the periods of the
  maximal runs of weak samples, its alarms those of the maximal runs of strong samples. A
  run that ends inside the series gives a period whose start is the timestamp of the
  first sample of the run (the recorded open index) and whose end is the timestamp of
  the first sample after the run (the sample that triggered the close); a run that
  reaches the last sample gives a period from the timestamp of its first sample to the
  boundary \<^verbatim>\<open>PeriodEnd\<close>, which is any instant the caller passes.
\<close>

theorem detect_periods_are_runs:
  "\<exists>ws als.
     detectOutliers3Sigmas data PeriodEnd outliersMultiplier strongOutliersMultiplier = Inr (ws, als) \<and>
     set ws =
       closedRuns (stamp data)
         (zscoreAt data (meanOf data) (strongOutliersMultiplier * sdOf data) (outliersMultiplier * sdOf data))
         Weak (length data) \<union>
       finalRuns (stamp data)
         (zscoreAt data (meanOf data) (strongOutliersMultiplier * sdOf data) (outliersMultiplier * sdOf data))
         Weak (length data) PeriodEnd \<and>
     set als =
       closedRuns (stamp data)
         (zscoreAt data (meanOf data) (strongOutliersMultiplier * sdOf data) (outliersMultiplier * sdOf data))
         Strong (length data) \<union>
       finalRuns (stamp data)
         (zscoreAt data (meanOf data) (strongOutliersMultiplier * sdOf data) (outliersMultiplier * sdOf data))
         Strong (length data) PeriodEnd"
proof -
  let ?t = "stamp data"
  let ?c = "zscoreAt data (meanOf data) (strongOutliersMultiplier * sdOf data)
              (outliersMultiplier * sdOf data)"
  let ?n = "length data"
  from machineAfter_runs [of ?t ?c ?n]
  obtain op ws0 als0 where m: "machineAfter ?t ?c ?n = (op, ws0, als0)" and o: "openInv ?c ?n op"
    and w: "set ws0 = closedRuns ?t ?c Weak ?n" and a: "set als0 = closedRuns ?t ?c Strong ?n"
    by blast
  obtain ws als where cl: "closeMachine ?t PeriodEnd (op, ws0, als0) = (ws, als)"
    by (cases "closeMachine ?t PeriodEnd (op, ws0, als0)") auto
  from closeMachine_runs [OF o cl] w a
  have "set ws = closedRuns ?t ?c Weak ?n \<union> finalRuns ?t ?c Weak ?n PeriodEnd"
    "set als = closedRuns ?t ?c Strong ?n \<union> finalRuns ?t ?c Strong ?n PeriodEnd"
    by auto
  moreover have "detectOutliers3Sigmas data PeriodEnd outliersMultiplier strongOutliersMultiplier = Inr (ws, als)"
    by (simp add: detect_machine m cl)
  ultimately show ?thesis by blast
qed

lemma exampleSeries_mean: "meanOf exampleSeries = 10"
  by (simp add: meanOf_def exampleSeries_def)

lemma exampleSeries_sd: "sdOf exampleSeries = 2"
  by (simp add: sdOf_def exampleSeries_mean) (simp add: exampleSeries_def)

lemma exampleSeries_detect:
  "detectOutliers3Sigmas exampleSeries 100 (1 / 4) 1 = Inr ([period 30 100], [period 10 30])"
  by (simp add: detect_machine exampleSeries_mean exampleSeries_sd)
     (simp add: exampleSeries_def zscoreAt_def classify_def stamp_def)

theorem detect_periods_are_runs_witness:
  "set [period 30 100] =
     closedRuns (stamp exampleSeries) (zscoreAt exampleSeries 10 2 (1 / 2)) Weak 5 \<union>
     finalRuns (stamp exampleSeries) (zscoreAt exampleSeries 10 2 (1 / 2)) Weak 5 100 \<and>
   set [period 10 30] =
     closedRuns (stamp exampleSeries) (zscoreAt exampleSeries 10 2 (1 / 2)) Strong 5 \<union>
     finalRuns (stamp exampleSeries) (zscoreAt exampleSeries 10 2 (1 / 2)) Strong 5 100"
proof -
  have l: "length exampleSeries = 5" by (simp add: exampleSeries_def)
  from detect_periods_are_runs [of exampleSeries 100 "1 / 4" 1]
  show ?thesis
    by (simp add: exampleSeries_detect exampleSeries_mean exampleSeries_sd l)
qed

subsection \<open>Order, disjointness and range of the periods\<close>

lemma ordered_Nil: "ordered [] []"
  by (simp add: ordered_def)

lemma ordered_snoc_left:
  "ordered ws als \<Longrightarrow> \<forall>q \<in> set ws \<union> set als. before q p \<Longrightarrow> ordered (ws @ [p]) als"
  by (auto simp: ordered_def sorted_wrt_append)

lemma ordered_snoc_right:
  "ordered ws als \<Longrightarrow> \<forall>q \<in> set ws \<union> set als. before q p \<Longrightarrow> ordered ws (als @ [p])"
  by (auto simp: ordered_def sorted_wrt_append)

lemma closedUpTo_weaken:
  "closedUpTo t n f p \<Longrightarrow> n \<le> n' \<Longrightarrow> f \<le> f' \<Longrightarrow> closedUpTo t n' f' p"
  unfolding closedUpTo_def by (metis le_trans less_le_trans)

lemma closedUpTo_new: "b < n \<Longrightarrow> n \<le> f \<Longrightarrow> closedUpTo t (Suc n) f (period (t b) (t n))"
  unfolding closedUpTo_def by (intro exI [of _ b] exI [of _ n]) simp

lemma closedUpTo_before:
  assumes mono: "\<forall>i j. i < j \<and> j < N \<longrightarrow> t i < t j"
    and "closedUpTo t n b q" and "b < N"
  shows "before q (period (t b) x)"
proof -
  from assms(2) obtain b' e where "b' < e" "e \<le> b" "q = period (t b') (t e)"
    by (auto simp: closedUpTo_def)
  moreover from this mono \<open>b < N\<close> have "t e \<le> t b"
    by (cases "e = b") (auto simp: less_le dest!: spec [of _ e] spec [of _ b])
  ultimately show ?thesis by (simp add: before_def period_def)
qed

lemma machineAfter_inv:
  assumes mono: "\<forall>i j. i < j \<and> j < N \<longrightarrow> t i < t j" and "n \<le> N"
  shows "machineInv t n (machineAfter t c n)"
  using assms(2)
proof (induction n)
  case 0
  then show ?case by (simp add: machineInv_def frontier_def ordered_Nil)
next
  case (Suc n)
  then have nN: "n < N" by simp
  obtain op ws als where m: "machineAfter t c n = (op, ws, als)"
    by (cases "machineAfter t c n") auto
  with Suc have f: "frontier n op \<le> n" "op \<noteq> NoneOpen \<longrightarrow> frontier n op < n"
    and o: "ordered ws als"
    and c: "\<forall>p \<in> set ws \<union> set als. closedUpTo t n (frontier n op) p"
    by (auto simp: machineInv_def)
  have keep: "\<forall>p \<in> set ws \<union> set als. closedUpTo t (Suc n) f' p" if "frontier n op \<le> f'" for f'
    using c that by (auto intro: closedUpTo_weaken)
  have close: "\<forall>q \<in> set ws \<union> set als. before q (period (t b) x)"
    if "frontier n op = b" for b x
  proof
    fix q assume "q \<in> set ws \<union> set als"
    with c that have "closedUpTo t n b q" by auto
    moreover from that f nN have "b < N" by simp
    ultimately show "before q (period (t b) x)" by (rule closedUpTo_before [OF mono])
  qed
  show ?case
  proof (cases op)
    case NoneOpen
    then show ?thesis using m o keep [of n] keep [of "Suc n"]
      by (cases "c n") (auto simp: machineInv_def frontier_def)
  next
    case (WeakOpen b)
    with f have bn: "b < n" by (simp add: frontier_def)
    have fb: "frontier n op = b" using WeakOpen by (simp add: frontier_def)
    note cl = close [OF fb, of "t n"]
    show ?thesis
    proof (cases "c n")
      case Strong
      then show ?thesis using m o WeakOpen bn keep [of n] fb cl
        by (auto simp: machineInv_def frontier_def ordered_snoc_left closedUpTo_new)
    next
      case Weak
      then show ?thesis using m o WeakOpen bn keep [of b] fb
        by (auto simp: machineInv_def frontier_def)
    next
      case Normal
      then show ?thesis using m o WeakOpen bn keep [of "Suc n"] fb cl
        by (auto simp: machineInv_def frontier_def ordered_snoc_left closedUpTo_new)
    qed
  next
    case (StrongOpen b)
    with f have bn: "b < n" by (simp add: frontier_def)
    have fb: "frontier n op = b" using StrongOpen by (simp add: frontier_def)
    note cl = close [OF fb, of "t n"]
    show ?thesis
    proof (cases "c n")
      case Strong
      then show ?thesis using m o StrongOpen bn keep [of b] fb
        by (auto simp: machineInv_def frontier_def)
    next
      case Weak
      then show ?thesis using m o StrongOpen bn keep [of n] fb cl
        by (auto simp: machineInv_def frontier_def ordered_snoc_right closedUpTo_new)
    next
      case Normal
      then show ?thesis using m o StrongOpen bn keep [of "Suc n"] fb cl
        by (auto simp: machineInv_def frontier_def ordered_snoc_right closedUpTo_new)
    qed
  qed
qed

lemma closedUpTo_inWindow:
  assumes mono: "\<forall>i j. i < j \<and> j < N \<longrightarrow> t i < t j"
    and rng: "\<forall>i < N. lo \<le> t i \<and> t i \<le> hi"
    and "closedUpTo t n f p" and "n \<le> N"
  shows "inWindow lo hi p"
proof -
  from assms(3) obtain b e where be: "b < e" "e < n" and p: "p = period (t b) (t e)"
    by (auto simp: closedUpTo_def)
  with \<open>n \<le> N\<close> have "b < N" "e < N" by auto
  with rng have "lo \<le> t b" "t e \<le> hi" by auto
  moreover from mono be \<open>e < N\<close> have "t b < t e" by blast
  ultimately show ?thesis using p by (simp add: inWindow_def period_def)
qed

lemma closeMachine_inv:
  assumes mono: "\<forall>i j. i < j \<and> j < N \<longrightarrow> t i < t j"
    and rng: "\<forall>i < N. lo \<le> t i \<and> t i \<le> hi"
    and inv: "machineInv t N m"
    and cl: "closeMachine t hi m = (ws, als)"
  shows "ordered ws als \<and> (\<forall>p \<in> set ws \<union> set als. inWindow lo hi p)"
proof -
  obtain op ws0 als0 where m: "m = (op, ws0, als0)" by (cases m) auto
  with inv have f: "op \<noteq> NoneOpen \<longrightarrow> frontier N op < N"
    and o: "ordered ws0 als0"
    and c: "\<forall>p \<in> set ws0 \<union> set als0. closedUpTo t N (frontier N op) p"
    by (auto simp: machineInv_def)
  have old: "\<forall>p \<in> set ws0 \<union> set als0. inWindow lo hi p"
    using c closedUpTo_inWindow [OF mono rng _ le_refl] by blast
  have new: "inWindow lo hi (period (t b) hi)" if "b < N" for b
    using rng that by (simp add: inWindow_def period_def)
  have close: "\<forall>q \<in> set ws0 \<union> set als0. before q (period (t b) hi)"
    if "frontier N op = b" "op \<noteq> NoneOpen" for b
  proof
    fix q assume "q \<in> set ws0 \<union> set als0"
    with c that have "closedUpTo t N b q" by auto
    moreover from that f have "b < N" by simp
    ultimately show "before q (period (t b) hi)" by (rule closedUpTo_before [OF mono])
  qed
  show ?thesis
  proof (cases op)
    case NoneOpen
    with m cl o old show ?thesis by auto
  next
    case (WeakOpen b)
    then have fb: "frontier N op = b" "op \<noteq> NoneOpen" by (simp_all add: frontier_def)
    with f have "b < N" by simp
    with WeakOpen m cl o old new [of b] close [OF fb] show ?thesis
      by (auto simp: ordered_snoc_left)
  next
    case (StrongOpen b)
    then have fb: "frontier N op = b" "op \<noteq> NoneOpen" by (simp_all add: frontier_def)
    with f have "b < N" by simp
    with StrongOpen m cl o old new [of b] close [OF fb] show ?thesis
      by (auto simp: ordered_snoc_right)
  qed
qed

lemma before_disjoint: "before p q \<or> before q p \<Longrightarrow> halfOpen p \<inter> halfOpen q = {}"
  by (auto simp: before_def halfOpen_def)

lemma sorted_wrt_before_nth:
  "sorted_wrt before ps \<Longrightarrow> i < length ps \<Longrightarrow> j < length ps \<Longrightarrow> i \<noteq> j \<Longrightarrow>
   before (ps ! i) (ps ! j) \<or> before (ps ! j) (ps ! i)"
  by (metis nat_neq_iff sorted_wrt_nth_less)

lemma ordered_pairwiseDisjoint:
  assumes "ordered ws als"
  shows "pairwiseDisjoint (ws @ als)"
  unfolding pairwiseDisjoint_def
proof (intro allI impI)
  fix i j
  assume i: "i < length (ws @ als)" and j: "j < length (ws @ als)" and ne: "i \<noteq> j"
  from assms have sw: "sorted_wrt before ws" and sa: "sorted_wrt before als"
    and cr: "\<forall>p \<in> set ws. \<forall>q \<in> set als. before p q \<or> before q p"
    by (auto simp: ordered_def)
  have "before ((ws @ als) ! i) ((ws @ als) ! j) \<or> before ((ws @ als) ! j) ((ws @ als) ! i)"
  proof (cases "i < length ws"; cases "j < length ws")
    assume "i < length ws" "j < length ws"
    with sw ne show ?thesis by (simp add: nth_append sorted_wrt_before_nth)
  next
    assume a: "i < length ws" "\<not> j < length ws"
    with j have "ws ! i \<in> set ws" "als ! (j - length ws) \<in> set als" by auto
    with cr a show ?thesis by (simp add: nth_append)
  next
    assume a: "\<not> i < length ws" "j < length ws"
    with i have "ws ! j \<in> set ws" "als ! (i - length ws) \<in> set als" by auto
    with cr a show ?thesis by (auto simp: nth_append)
  next
    assume a: "\<not> i < length ws" "\<not> j < length ws"
    with i j ne have "i - length ws < length als" "j - length ws < length als"
      "i - length ws \<noteq> j - length ws" by auto
    with sa a show ?thesis by (simp add: nth_append sorted_wrt_before_nth)
  qed
  then show "halfOpen ((ws @ als) ! i) \<inter> halfOpen ((ws @ als) ! j) = {}"
    by (rule before_disjoint)
qed

lemma sorted_starts:
  assumes "sorted_wrt before ps" and "\<forall>p \<in> set ps. inWindow lo hi p"
  shows "sorted (map outlierPeriodStart ps)"
proof -
  have "sorted_wrt (\<lambda>p q. outlierPeriodStart p \<le> outlierPeriodStart q) ps"
    using assms
    by (induction ps) (auto simp: before_def inWindow_def intro: order_trans)
  then show ?thesis by (simp add: sorted_map)
qed

lemma stamp_mono:
  assumes "sorted_wrt (<) (map DateStart data)"
  shows "\<forall>i j. i < j \<and> j < length data \<longrightarrow> stamp data i < stamp data j"
  using assms by (auto simp: stamp_def sorted_wrt_iff_nth_less)

lemma stamp_range:
  assumes "\<forall>s \<in> set data. lo \<le> DateStart s \<and> DateStart s \<le> hi"
  shows "\<forall>i < length data. lo \<le> stamp data i \<and> stamp data i \<le> hi"
  using assms by (simp add: stamp_def)

text \<open>
  Claim C7. For a series whose timestamps increase strictly and lie in
  \<open>[seriesStart, seriesEnd]\<close>, run with the boundary \<open>seriesEnd\<close>: no two of the emitted
  periods (warnings and alarms together) share an instant of their \<open>[start, end)\<close> ranges,
  each of the two lists is in non-decreasing order of start, and every period has its
  start not after its end and lies within \<open>[seriesStart, seriesEnd]\<close>.
\<close>

theorem detect_periods_invariants:
  assumes "sorted_wrt (<) (map DateStart data)"
    and "\<forall>s \<in> set data. seriesStart \<le> DateStart s \<and> DateStart s \<le> seriesEnd"
  shows "\<exists>ws als.
    detectOutliers3Sigmas data seriesEnd outliersMultiplier strongOutliersMultiplier = Inr (ws, als) \<and>
    pairwiseDisjoint (ws @ als) \<and>
    sorted (map outlierPeriodStart ws) \<and> sorted (map outlierPeriodStart als) \<and>
    (\<forall>p \<in> set (ws @ als). inWindow seriesStart seriesEnd p)"
proof -
  let ?c = "zscoreAt data (meanOf data) (strongOutliersMultiplier * sdOf data)
              (outliersMultiplier * sdOf data)"
  let ?m = "machineAfter (stamp data) ?c (length data)"
  obtain ws als where cl: "closeMachine (stamp data) seriesEnd ?m = (ws, als)"
    by (cases "closeMachine (stamp data) seriesEnd ?m") auto
  note mono = stamp_mono [OF assms(1)] and rng = stamp_range [OF assms(2)]
  have inv: "machineInv (stamp data) (length data) ?m"
    by (rule machineAfter_inv [OF mono le_refl])
  from closeMachine_inv [OF mono rng inv cl]
  have o: "ordered ws als" and w: "\<forall>p \<in> set ws \<union> set als. inWindow seriesStart seriesEnd p"
    by auto
  have "detectOutliers3Sigmas data seriesEnd outliersMultiplier strongOutliersMultiplier = Inr (ws, als)"
    by (simp add: detect_machine cl)
  moreover have "pairwiseDisjoint (ws @ als)" using o by (rule ordered_pairwiseDisjoint)
  moreover have "sorted (map outlierPeriodStart ws)" "sorted (map outlierPeriodStart als)"
    using o w by (auto simp: ordered_def intro: sorted_starts)
  ultimately show ?thesis using w by auto
qed

theorem detect_periods_invariants_witness:
  "sorted_wrt (<) (map DateStart exampleSeries) \<and>
   list_all (\<lambda>s. 0 \<le> DateStart s \<and> DateStart s \<le> 100) exampleSeries \<and>
   detectOutliers3Sigmas exampleSeries 100 (1 / 4) 1 = Inr ([period 30 100], [period 10 30]) \<and>
   pairwiseDisjoint [period 30 100, period 10 30] \<and>
   sorted (map outlierPeriodStart [period 30 100]) \<and>
   sorted (map outlierPeriodStart [period 10 30]) \<and>
   inWindow 0 100 (period 30 100) \<and> inWindow 0 100 (period 10 30)"
proof -
  have h1: "sorted_wrt (<) (map DateStart exampleSeries)"
    by (simp add: exampleSeries_def)
  have h2: "\<forall>s \<in> set exampleSeries. 0 \<le> DateStart s \<and> DateStart s \<le> 100"
    by (simp add: exampleSeries_def)
  from detect_periods_invariants [OF h1 h2, of "1 / 4" 1] h1 h2
  show ?thesis
    by (simp add: exampleSeries_detect list_all_iff)
qed

subsection \<open>Baseline statistics, classification and the reference scenario\<close>

lemma sumLoop_sum_list: "sumLoop data acc = acc + sum_list (map Value data)"
  by (induction data arbitrary: acc) simp_all

lemma sdLoop_sum_list:
  "sdLoop data mean sd = sd + sum_list (map (\<lambda>s. (Value s - mean) ^ 2) data)"
  by (induction data arbitrary: sd) simp_all






lemma zscoreAt_classify:
  "zscoreAt data mean strongLimit weakLimit =
     (\<lambda>k. classify mean strongLimit weakLimit (Value (data ! k)))"
  by (rule ext) (simp add: zscoreAt_def)

text \<open>
  Claim C4. With \<open>strongLimit = strongOutliersMultiplier * sd\<close> and
  \<open>weakLimit = outliersMultiplier * sd\<close>, a sample is classified strong exactly when its
  distance to the mean is greater than the strong limit, weak exactly when it is not
  greater than the strong limit and greater than the weak limit, and normal exactly when
  it is greater than neither. So the comparisons are strict: a sample whose distance
  equals the strong limit is not strong, one whose distance equals the weak limit is not
  weak. The strong test comes first: when the strong limit is not above the weak limit a
  sample beyond the weak limit (so beyond both) is still classified strong. This is the
  classification \<^verbatim>\<open>detectOutliers3Sigmas\<close> runs its state machine on, with the mean and the
  standard deviation of the series.
\<close>

theorem classify_strict_strong_first:
  "(classify mean (strongOutliersMultiplier * sd) (outliersMultiplier * sd) v = Strong \<longleftrightarrow>
      \<bar>v - mean\<bar> > strongOutliersMultiplier * sd) \<and>
   (classify mean (strongOutliersMultiplier * sd) (outliersMultiplier * sd) v = Weak \<longleftrightarrow>
      \<not> \<bar>v - mean\<bar> > strongOutliersMultiplier * sd \<and> \<bar>v - mean\<bar> > outliersMultiplier * sd) \<and>
   (classify mean (strongOutliersMultiplier * sd) (outliersMultiplier * sd) v = Normal \<longleftrightarrow>
      \<not> \<bar>v - mean\<bar> > strongOutliersMultiplier * sd \<and> \<not> \<bar>v - mean\<bar> > outliersMultiplier * sd) \<and>
   (\<bar>v - mean\<bar> = strongOutliersMultiplier * sd \<longrightarrow>
      classify mean (strongOutliersMultiplier * sd) (outliersMultiplier * sd) v \<noteq> Strong) \<and>
   (\<bar>v - mean\<bar> = outliersMultiplier * sd \<longrightarrow>
      classify mean (strongOutliersMultiplier * sd) (outliersMultiplier * sd) v \<noteq> Weak) \<and>
   (strongOutliersMultiplier * sd \<le> outliersMultiplier * sd \<and>
    \<bar>v - mean\<bar> > outliersMultiplier * sd \<longrightarrow>
      classify mean (strongOutliersMultiplier * sd) (outliersMultiplier * sd) v = Strong) \<and>
   detectOutliers3Sigmas data PeriodEnd outliersMultiplier strongOutliersMultiplier =
     Inr (closeMachine (stamp data) PeriodEnd
            (machineAfter (stamp data)
               (\<lambda>k. classify (meanOf data) (strongOutliersMultiplier * sdOf data)
                      (outliersMultiplier * sdOf data) (Value (data ! k)))
               (length data)))"
proof -
  have "detectOutliers3Sigmas data PeriodEnd outliersMultiplier strongOutliersMultiplier =
     Inr (closeMachine (stamp data) PeriodEnd
            (machineAfter (stamp data)
               (\<lambda>k. classify (meanOf data) (strongOutliersMultiplier * sdOf data)
                      (outliersMultiplier * sdOf data) (Value (data ! k)))
               (length data)))"
    by (simp only: detect_machine zscoreAt_classify)
  then show ?thesis by (simp add: classify_def)
qed

theorem classify_strict_strong_first_witness:
  "\<bar>13 - 10\<bar> = (3 / 2) * (2::real) \<and> classify 10 ((3 / 2) * 2) (1 * 2) 13 = Weak \<and>
   \<bar>13 - 10\<bar> = (3 / 2) * (2::real) \<and> classify 10 (2 * 2) ((3 / 2) * 2) 13 = Normal \<and>
   \<bar>13 - 10\<bar> > 1 * (2::real) \<and> 1 * 2 \<le> (5 / 4) * (2::real) \<and>
   \<bar>13 - 10\<bar> > (5 / 4) * (2::real) \<and> classify 10 (1 * 2) ((5 / 4) * 2) 13 = Strong"
proof -
  have a: "\<bar>13 - 10\<bar> = (3 / 2) * (2::real)" by simp
  have a': "\<bar>13 - 10\<bar> > 1 * (2::real)" "\<not> \<bar>13 - 10\<bar> > 2 * (2::real)" by simp_all
  have b: "\<bar>13 - 10\<bar> > 1 * (2::real)" by simp
  have c: "1 * 2 \<le> (5 / 4) * (2::real)" by simp
  have d: "\<bar>13 - 10\<bar> > (5 / 4) * (2::real)" by simp
  from classify_strict_strong_first [of 10 "3 / 2" 2 1 13 exampleSeries 100] a a'
  have 1: "classify 10 ((3 / 2) * 2) (1 * 2) 13 = Weak" by auto
  from classify_strict_strong_first [of 10 2 2 "3 / 2" 13 exampleSeries 100] a a'
  have 2: "classify 10 (2 * 2) ((3 / 2) * 2) 13 = Normal" by auto
  from classify_strict_strong_first [of 10 1 2 "5 / 4" 13 exampleSeries 100] c d
  have 3: "classify 10 (1 * 2) ((5 / 4) * 2) 13 = Strong" by blast
  from a b c d 1 2 3 show ?thesis by blast
qed

lemma refValues_length: "length refValues = 30"
  by (simp add: refValues_def)

lemma refData_length: "length (refData t) = 30"
  by (simp add: refData_def refValues_length del: upt_rec_numeral)

lemma refData_nth:
  "k < length refValues \<Longrightarrow>
   refData t ! k = \<lparr>DateStart = t k, Value = refValues ! k, Samples = 100\<rparr>"
  by (simp add: refData_def)

lemma refData_values: "map Value (refData t) = refValues"
proof -
  have "map Value (refData t) = map (\<lambda>i. refValues ! i) [0..<length refValues]"
    by (simp add: refData_def)
  then show ?thesis by (simp add: map_nth)
qed

lemma refData_stamp: "k < 30 \<Longrightarrow> stamp (refData t) k = t k"
  by (simp add: stamp_def refData_nth refValues_length)

lemma refData_mean: "meanOf (refData t) = 3247 / 10"
  by (simp add: meanOf_def sumLoop_sum_list refData_values refData_length)
     (simp add: refValues_def)

lemma refData_variance:
  "sdLoop (refData t) (3247 / 10) 0 / 30 = 5117461 / 100"
proof -
  have "sum_list (map (\<lambda>s. (Value s - 3247 / 10) ^ 2) (refData t)) =
        sum_list (map (\<lambda>v. (v - 3247 / 10) ^ 2) (map Value (refData t)))"
    by (simp add: comp_def)
  also have "\<dots> = sum_list (map (\<lambda>v. (v - 3247 / 10) ^ 2) refValues)"
    by (simp only: refData_values)
  also have "\<dots> = 15352383 / 10"
    by (simp add: refValues_def power2_eq_square)
  finally show ?thesis by (simp add: sdLoop_sum_list)
qed

lemma refData_sd: "226 < sdOf (refData t) \<and> sdOf (refData t) < 227"
proof -
  have e: "sdOf (refData t) = sqrt (5117461 / 100)"
    by (simp add: sdOf_def refData_mean refData_length refData_variance)
  have "(226::real) ^ 2 < 5117461 / 100" by (simp add: power2_eq_square)
  then have "226 < sqrt (5117461 / 100)" by (rule real_less_rsqrt)
  moreover have "(5117461 / 100 :: real) < 227 ^ 2" by (simp add: power2_eq_square)
  then have "sqrt (5117461 / 100) < 227" by (intro real_less_lsqrt) simp_all
  ultimately show ?thesis using e by simp
qed

lemma machineAfter_all_normal:
  "(\<forall>k < n. c k = Normal) \<Longrightarrow> machineAfter t c n = (NoneOpen, [], [])"
  by (induction n) simp_all

lemma refValues_prefix_small:
  assumes "k < 27"
  shows "\<bar>refValues ! k - 3247 / 10\<bar> \<le> 452"
proof -
  have "list_all (\<lambda>v. \<bar>v - 3247 / 10\<bar> \<le> 452) (take 27 refValues)"
    by (simp add: refValues_def)
  then have "\<bar>take 27 refValues ! k - 3247 / 10\<bar> \<le> 452"
    using assms by (simp add: list_all_length refValues_length)
  with assms show ?thesis by simp
qed

lemma refValues_tail:
  "refValues ! 27 = 1027" "refValues ! 28 = 1057" "refValues ! 29 = 911"
  by (simp_all add: refValues_def)

lemma refData_zscore:
  fixes t :: "nat \<Rightarrow> instant"
  defines "c \<equiv> zscoreAt (refData t) (meanOf (refData t)) (3 * sdOf (refData t)) (2 * sdOf (refData t))"
  shows "\<forall>k < 27. c k = Normal" and "c 27 = Strong" and "c 28 = Strong" and "c 29 = Weak"
proof -
  note sd = refData_sd [of t]
  show "\<forall>k < 27. c k = Normal"
  proof (intro allI impI)
    fix k :: nat assume k: "k < 27"
    from refValues_prefix_small [OF k] sd k show "c k = Normal"
      by (simp add: c_def zscoreAt_def classify_def refData_mean refData_nth refValues_length)
  qed
  from sd show "c 27 = Strong"
    by (simp add: c_def zscoreAt_def classify_def refData_mean refData_nth refValues_length
          refValues_tail)
  from sd show "c 28 = Strong"
    by (simp add: c_def zscoreAt_def classify_def refData_mean refData_nth refValues_length
          refValues_tail)
  from sd show "c 29 = Weak"
    by (simp add: c_def zscoreAt_def classify_def refData_mean refData_nth refValues_length
          refValues_tail)
qed

text \<open>
  Claim C3. On the reference series of 30 samples, with weak multiplier 2 and strong
  multiplier 3, \<^verbatim>\<open>detectOutliers3Sigmas\<close> returns exactly one warning, from the timestamp of
  sample 29 to the boundary passed by the caller, and exactly one alarm, from the
  timestamp of sample 27 to the timestamp of sample 29.
\<close>

theorem reference_scenario:
  "detectOutliers3Sigmas (refData t) boundary 2 3 =
     Inr ([\<lparr>outlierPeriodStart = t 29, outlierPeriodEnd = boundary\<rparr>],
          [\<lparr>outlierPeriodStart = t 27, outlierPeriodEnd = t 29\<rparr>])"
proof -
  let ?c = "zscoreAt (refData t) (meanOf (refData t)) (3 * sdOf (refData t)) (2 * sdOf (refData t))"
  let ?s = "stamp (refData t)"
  note z = refData_zscore [of t]
  have m27: "machineAfter ?s ?c 27 = (NoneOpen, [], [])"
    using z(1) by (rule machineAfter_all_normal)
  have "machineAfter ?s ?c (Suc 27) = (StrongOpen 27, [], [])"
    by (simp only: machineAfter.simps m27 z(2) transition.simps)
  then have m28: "machineAfter ?s ?c 28 = (StrongOpen 27, [], [])" by simp
  have "machineAfter ?s ?c (Suc 28) = (StrongOpen 27, [], [])"
    by (simp only: machineAfter.simps m28 z(3) transition.simps)
  then have m29: "machineAfter ?s ?c 29 = (StrongOpen 27, [], [])" by simp
  have "machineAfter ?s ?c (Suc 29) = (WeakOpen 29, [], [period (?s 27) (?s 29)])"
    by (simp only: machineAfter.simps m29 z(4) transition.simps append_Nil)
  then have m30: "machineAfter ?s ?c 30 = (WeakOpen 29, [], [period (t 27) (t 29)])"
    by (simp add: refData_stamp)
  show ?thesis
    by (simp add: detect_machine refData_length m30 refData_stamp period_def)
qed

subsection \<open>The duration parser and the unit \<open>ms\<close>\<close>

text \<open>
  A unit that starts with the byte \<open>m\<close> is always read as minutes: the one-byte lookup
  finds \<open>m\<close> in the table, so the two-byte lookup, the only one that could find \<open>ms\<close>, is
  never made.
\<close>

lemma lookupUnit_m:
  assumes "i < length timeStep" and "timeStep ! i = CHR ''m''"
  shows "lookupUnit timeStep i = Inr (60000000000, i + 1)"
proof -
  from assms have "take (Suc 0) (drop i timeStep) = ''m''"
    by (simp add: take_Suc_conv_app_nth [of 0] hd_drop_conv_nth take_Suc)
  with assms(1) show ?thesis
    by (simp add: lookupUnit_def slice_def unitMap_def)
qed

text \<open>
  Claim C8 says that every string of \<open><number><unit>\<close> pairs over the units \<open>ns\<close>, \<open>us\<close>, \<open>ms\<close>,
  \<open>s\<close>, \<open>m\<close>, \<open>h\<close>, \<open>d\<close>, \<open>w\<close> gives the sum of the products and no error. The table of units has
  \<open>ms\<close>, one millisecond, but \<^verbatim>\<open>StrToDuration\<close> returns an error for \<open>1ms\<close>: it reads \<open>1m\<close>, one
  minute, and then finds no number before \<open>s\<close>. Strings without \<open>ms\<close> are read as the claim
  says: \<open>1d12h\<close> is 36 hours.
\<close>

theorem StrToDuration_ms_rejected:
  "unitMap ''ms'' = Some 1000000 \<and>
   StrToDuration ''1ms'' = Inl (InvalidDuration ''1ms'') \<and>
   StrToDuration ''1d12h'' = Inr (36 * 3600000000000)"
  by code_simp

subsection \<open>An unknown detection method\<close>

lemma Result_unchanged:
  "res\<lparr>Result := \<lparr>Warnings = Warnings (Result res), Alarms = Alarms (Result res)\<rparr>\<rparr> = res"
  by simp

lemma attributesLoop_unknown:
  assumes "OutliersDetectionMethod res \<noteq> ''3-sigmas''"
  shows "attributesLoop siteData methodParams metricData attributes (res, logged) =
           Inr (res, logged @ replicate (length attributes) (notImplemented (OutliersDetectionMethod res)))"
  using assms
proof (induction attributes arbitrary: logged)
  case Nil
  then show ?case by simp
next
  case (Cons attribute rest)
  then show ?case
    by (simp add: detect_def Result_unchanged)
qed

lemma metricsLoop_unknown:
  assumes "OutliersDetectionMethod res \<noteq> ''3-sigmas''"
  shows "metricsLoop siteData methodParams metrics (res, logged) =
           Inr (res, logged @
             replicate (length (concat (map Attributes metrics)))
               (notImplemented (OutliersDetectionMethod res)))"
  using assms
proof (induction metrics arbitrary: logged)
  case Nil
  then show ?case by simp
next
  case (Cons metricData rest)
  then show ?case
    by (simp add: attributesLoop_unknown replicate_add)
qed

text \<open>
  Claim C6. When the configured name of the detection method is not \<open>3-sigmas\<close>,
  \<^verbatim>\<open>GetResults\<close> returns a report and no error, for every site and every parameters: the
  report carries the identification, the two clock readings and the window of the site,
  its lists of warnings and of alarms are both empty, and one line is logged for each
  attribute of each metric. No metric or attribute stops the assembly of the report.
\<close>

theorem GetResults_unknown_method:
  assumes "OutliersDetectionMethod_conf dataConf \<noteq> ''3-sigmas''"
  shows "GetResults siteData dataConf methodParams now0 now1 =
     Inr (\<lparr>SiteId = SiteId_data siteData,
           OutliersDetectionMethod = OutliersDetectionMethod_conf dataConf,
           CheckDateStart = now0,
           CheckDateEnd = now1,
           TimeAgo = TimeAgo_conf dataConf,
           TimeStep = TimeStep_conf dataConf,
           DateStart_report = DateStart_data siteData,
           DateEnd_report = DateEnd_data siteData,
           Result = \<lparr>Warnings = [], Alarms = []\<rparr>\<rparr>,
          replicate (length (concat (map Attributes (Metrics siteData))))
            (notImplemented (OutliersDetectionMethod_conf dataConf)))"
  using assms by (simp add: GetResults_def metricsLoop_unknown)

theorem GetResults_unknown_method_witness:
  "OutliersDetectionMethod_conf (exampleConf ''iqr'') \<noteq> ''3-sigmas'' \<and>
   GetResults exampleSite (exampleConf ''iqr'') exampleParams 1 2 =
     Inr (\<lparr>SiteId = ''site1'', OutliersDetectionMethod = ''iqr'', CheckDateStart = 1,
           CheckDateEnd = 2, TimeAgo = ''1d'', TimeStep = ''1h'', DateStart_report = 0,
           DateEnd_report = 100, Result = \<lparr>Warnings = [], Alarms = []\<rparr>\<rparr>,
          [''Detection Method iqr not implemented''])"
proof -
  have h: "OutliersDetectionMethod_conf (exampleConf ''iqr'') \<noteq> ''3-sigmas''"
    by (simp add: exampleConf_def)
  from GetResults_unknown_method [OF h, of exampleSite exampleParams 1 2] h
  show ?thesis
    by (simp add: exampleConf_def exampleSite_def notImplemented_def)
qed

subsection \<open>The names of the members of a report\<close>

lemma exampleSite_report:
  "GetResults exampleSite (exampleConf ''3-sigmas'') exampleParams 1 2 =
     Inr (\<lparr>SiteId = ''site1'', OutliersDetectionMethod = ''3-sigmas'', CheckDateStart = 1,
           CheckDateEnd = 2, TimeAgo = ''1d'', TimeStep = ''1h'', DateStart_report = 0,
           DateEnd_report = 100,
           Result = \<lparr>Warnings = [\<lparr>OutlierPeriodStart = 30, OutlierPeriodEnd = 100,
                                    Metric_event = ''visits'', Attribute = ''Total''\<rparr>],
                      Alarms = [\<lparr>OutlierPeriodStart = 10, OutlierPeriodEnd = 30,
                                  Metric_event = ''visits'', Attribute = ''Total''\<rparr>]\<rparr>\<rparr>,
          [])"
  by (simp add: GetResults_def exampleConf_def exampleSite_def exampleParams_def detect_def
        attributeSeries_def exampleSeries_detect newOutlierEvent_def period_def)

text \<open>
  Claim C9 says that a report is written to JSON under the names of the data model of
  the specification: \<open>siteId\<close>, \<open>methodName\<close>, \<open>checkStart\<close>, \<open>checkEnd\<close>, \<open>timeAgo\<close>, \<open>timeStep\<close>,
  \<open>seriesStart\<close>, \<open>seriesEnd\<close>, \<open>warnings\<close>, \<open>alarms\<close>. The report that \<^verbatim>\<open>GetResults\<close> builds for
  the example site is not written under these names.
\<close>

theorem report_field_names_counterexample:
  "\<exists>r logged.
     GetResults exampleSite (exampleConf ''3-sigmas'') exampleParams 1 2 = Inr (r, logged) \<and>
     fieldNames (marshalOutlierReport r) \<noteq> specFieldNames"
  by (simp add: exampleSite_report fieldNames_def marshalOutlierReport_def specFieldNames_def)

text \<open>
  Claim C9, amended. Every report is written to JSON as an object with the members
  \<open>siteId\<close>, \<open>outliersDetectionMethod\<close>, \<open>checkTimeStart\<close>, \<open>checkTimeEnd\<close>, \<open>timeAgo\<close>, \<open>timeStep\<close>,
  \<open>dateStart\<close>, \<open>dateEnd\<close> and \<open>result\<close>, in this order; the member \<open>result\<close> is an object with the
  members \<open>warnings\<close> and \<open>alarms\<close>.
\<close>

theorem report_field_names:
  "fieldNames (marshalOutlierReport r) =
     [''siteId'', ''outliersDetectionMethod'', ''checkTimeStart'', ''checkTimeEnd'', ''timeAgo'',
      ''timeStep'', ''dateStart'', ''dateEnd'', ''result''] \<and>
   map_of (fields (marshalOutlierReport r)) ''result'' = Some (marshalOutlierResults (Result r)) \<and>
   fieldNames (marshalOutlierResults (Result r)) = [''warnings'', ''alarms'']"
  by (simp add: fieldNames_def marshalOutlierReport_def marshalOutlierResults_def)

end
